theory Spec2Isabelle
  imports Complex_Main
begin

section \<open>Data model of \<open>App.tsx\<close>\<close>

text \<open>
  The component \<open>App\<close> keeps seven pieces of React state and one ref. Its handlers
  read that state, read \<open>speechSynthesis.speaking\<close>, call methods of the platform
  objects and call the state setters. Here every handler is a function from the
  observation it makes and the state before to the state after and the list of platform
  calls it issued, in the order of the source lines.

  A JavaScript number is modelled by a rational: the code only stores and copies the
  numbers it receives, and every finite double is a rational.
\<close>

type_synonym number = rat

text \<open>\<open>interface Voice\<close> (lines 4 to 8).\<close>

record Voice =
  name :: string
  lang :: string
  voiceURI :: string

text \<open>
  The three callbacks that \<open>handleSpeak\<close> attaches to an utterance are the closures
  \<open>() => setIsPlaying(b)\<close>; a closure is represented by the setter call in its body.
\<close>

datatype Callback = SetIsPlaying bool

text \<open>
  A \<open>SpeechSynthesisUtterance\<close>, restricted to the properties the code touches. The fields
  \<open>utext\<close>, \<open>urate\<close> and \<open>upitch\<close> are the properties \<open>text\<close>, \<open>rate\<close> and \<open>pitch\<close> of
  the object (renamed: the component's state uses the same names).
\<close>

record Utterance =
  utext :: string
  voice :: "Voice option"
  urate :: number
  upitch :: number
  onstart :: "Callback option"
  onend :: "Callback option"
  onerror :: "Callback option"

text \<open>
  The state of the component (lines 11 to 19): the \<open>useState\<close> cells and the ref
  \<open>utteranceRef\<close>. \<open>text_buffer\<close> is the cell \<open>text\<close>.
\<close>

record AppState =
  text_buffer :: string
  voices :: "Voice list"
  selectedVoice :: string
  rate :: number
  pitch :: number
  isPlaying :: bool
  showSettings :: bool
  utteranceRef :: "Utterance option"

definition initial :: AppState where
  "initial =
     \<lparr>text_buffer = [], voices = [], selectedVoice = [], rate = 1, pitch = 1,
      isPlaying = False, showSettings = False, utteranceRef = None\<rparr>"

text \<open>The calls a handler can make on \<open>window.speechSynthesis\<close>.\<close>

datatype SpeechCommand = Cancel | Speak Utterance | Pause | Resume

section \<open>The handlers\<close>

text \<open>
  \<open>new SpeechSynthesisUtterance(text)\<close>: the platform's defaults for the properties the
  code assigns afterwards.
\<close>

definition new_utterance :: "string \<Rightarrow> Utterance" where
  "new_utterance t =
     \<lparr>utext = t, voice = None, urate = 1, upitch = 1,
      onstart = None, onend = None, onerror = None\<rparr>"

text \<open>
  \<open>handleSpeak\<close> (lines 36 to 53). The first argument is the value of
  \<open>speechSynthesis.speaking\<close> read at line 37. \<open>voices.find(...) || null\<close> is
  \<^const>\<open>List.find\<close>: the first entry that satisfies the test, or nothing.
\<close>

definition handleSpeak :: "bool \<Rightarrow> AppState \<Rightarrow> AppState \<times> SpeechCommand list" where
  "handleSpeak speaking s =
     (let cancelled = (if speaking then [Cancel] else [])
      in if text_buffer s \<noteq> [] then
           let u = (new_utterance (text_buffer s))
                     \<lparr>voice := List.find (\<lambda>v. voiceURI v = selectedVoice s) (voices s),
                      urate := rate s,
                      upitch := pitch s,
                      onstart := Some (SetIsPlaying True),
                      onend := Some (SetIsPlaying False),
                      onerror := Some (SetIsPlaying False)\<rparr>
           in (s\<lparr>utteranceRef := Some u\<rparr>, cancelled @ [Speak u])
         else (s, cancelled))"

text \<open>\<open>handlePause\<close> (lines 55 to 64), with the value of \<open>speechSynthesis.speaking\<close>.\<close>

definition handlePause :: "bool \<Rightarrow> AppState \<Rightarrow> AppState \<times> SpeechCommand list" where
  "handlePause speaking s =
     (if speaking then
        (s\<lparr>isPlaying := \<not> isPlaying s\<rparr>, [if isPlaying s then Pause else Resume])
      else (s, []))"

text \<open>\<open>handleStop\<close> (lines 66 to 69).\<close>

definition handleStop :: "AppState \<Rightarrow> AppState \<times> SpeechCommand list" where
  "handleStop s = (s\<lparr>isPlaying := False\<rparr>, [Cancel])"

text \<open>
  \<open>loadVoices\<close> (lines 22 to 28); the argument is what \<open>speechSynthesis.getVoices()\<close>
  returned. It runs once when the component mounts and again whenever the platform fires
  \<open>onvoiceschanged\<close>.
\<close>

definition loadVoices :: "Voice list \<Rightarrow> AppState \<Rightarrow> AppState" where
  "loadVoices availableVoices s =
     (let s1 = s\<lparr>voices := availableVoices\<rparr>
      in if length availableVoices > 0
         then s1\<lparr>selectedVoice := voiceURI (availableVoices ! 0)\<rparr>
         else s1)"

text \<open>Running a callback of an utterance: the setter call it stands for.\<close>

fun run_callback :: "Callback option \<Rightarrow> AppState \<Rightarrow> AppState" where
  "run_callback None s = s"
| "run_callback (Some (SetIsPlaying b)) s = s\<lparr>isPlaying := b\<rparr>"

text \<open>
  The \<open>disabled\<close> attributes of the four buttons (lines 111, 119, 127 and 136). In
  JavaScript \<open>!text\<close> holds of the empty string only. The attributes of Pause and Stop
  read \<open>speechSynthesis.speaking\<close> while the component renders.
\<close>

definition playDisabled :: "AppState \<Rightarrow> bool" where
  "playDisabled s = (text_buffer s = [] \<or> isPlaying s)"

definition pauseDisabled :: "bool \<Rightarrow> bool" where
  "pauseDisabled speaking = (\<not> speaking)"

definition stopDisabled :: "bool \<Rightarrow> bool" where
  "stopDisabled speaking = (\<not> speaking)"

definition downloadDisabled :: "AppState \<Rightarrow> bool" where
  "downloadDisabled s = (text_buffer s = [])"

text \<open>
  A click on a button: a disabled button does not call its \<open>onClick\<close> handler, an
  enabled one calls it. The attribute of Play is computed from React state alone, so it
  is current at every click. Those of Pause and Stop were computed from the value
  \<open>rendered\<close> of \<open>speechSynthesis.speaking\<close> at the last render, while the handler reads
  the value \<open>speaking\<close> at the click.
\<close>

definition clickPlay :: "bool \<Rightarrow> AppState \<Rightarrow> AppState \<times> SpeechCommand list" where
  "clickPlay speaking s = (if playDisabled s then (s, []) else handleSpeak speaking s)"

definition clickPause :: "bool \<Rightarrow> bool \<Rightarrow> AppState \<Rightarrow> AppState \<times> SpeechCommand list" where
  "clickPause rendered speaking s =
     (if pauseDisabled rendered then (s, []) else handlePause speaking s)"

definition clickStop :: "bool \<Rightarrow> AppState \<Rightarrow> AppState \<times> SpeechCommand list" where
  "clickStop rendered s = (if stopDisabled rendered then (s, []) else handleStop s)"

section \<open>Text export\<close>

text \<open>
  \<open>handleDownload\<close> (lines 71 to 79) builds a \<open>Blob\<close> and an anchor element and calls
  three platform operations. The argument \<open>url\<close> is the string that
  \<open>window.URL.createObjectURL\<close> returned.
\<close>

record Blob =
  blobParts :: "string list"
  blobType :: string

record Anchor =
  href :: string
  download :: string

datatype DomEffect =
  CreateObjectURL Blob string
| AnchorClick Anchor
| RevokeObjectURL string

definition handleDownload :: "string \<Rightarrow> AppState \<Rightarrow> DomEffect list" where
  "handleDownload url s =
     (let blob = \<lparr>blobParts = [text_buffer s], blobType = ''text/plain''\<rparr>;
          a = \<lparr>href = url, download = ''speech-text.txt''\<rparr>
      in [CreateObjectURL blob url, AnchorClick a, RevokeObjectURL url])"

definition clickDownload :: "string \<Rightarrow> AppState \<Rightarrow> DomEffect list" where
  "clickDownload url s = (if downloadDisabled s then [] else handleDownload url s)"

text \<open>
  Modelled from the spec: the file-save collaborator (the browser, not code of this
  repository), which given a byte buffer and a suggested file name saves a file. A click
  on an anchor whose \<open>href\<close> is a live object URL saves the blob behind that URL under
  the anchor's \<open>download\<close> name; the contents of a blob are its parts, one after the
  other.
\<close>

record SavedFile =
  fileName :: string
  fileType :: string
  fileData :: string

fun saved_files :: "(string \<rightharpoonup> Blob) \<Rightarrow> DomEffect list \<Rightarrow> SavedFile list" where
  "saved_files store [] = []"
| "saved_files store (CreateObjectURL b url # es) = saved_files (store(url \<mapsto> b)) es"
| "saved_files store (AnchorClick a # es) =
     (case store (href a) of
        None \<Rightarrow> saved_files store es
      | Some b \<Rightarrow>
          \<lparr>fileName = download a, fileType = blobType b, fileData = concat (blobParts b)\<rparr>
            # saved_files store es)"
| "saved_files store (RevokeObjectURL url # es) = saved_files (store(url := None)) es"

section \<open>The platform speech capability and the event loop\<close>

text \<open>
  Modelled from the spec: the platform speech capability (the browser's, not code of
  this repository), which the component sees only through the calls above. It is
  represented by the contract of its queue: \<open>speak\<close> appends the utterance, \<open>cancel\<close>
  removes every utterance, \<open>pause\<close> and \<open>resume\<close> leave the queue as it is. The queue
  holds the utterances that were submitted and have neither finished nor been cancelled.
\<close>

fun platform_exec :: "SpeechCommand \<Rightarrow> Utterance list \<Rightarrow> Utterance list" where
  "platform_exec Cancel q = []"
| "platform_exec (Speak u) q = q @ [u]"
| "platform_exec Pause q = q"
| "platform_exec Resume q = q"

definition platform_run :: "SpeechCommand list \<Rightarrow> Utterance list \<Rightarrow> Utterance list" where
  "platform_run cmds q = fold platform_exec cmds q"

text \<open>
  The component together with the platform's queue. In this closed system the platform
  reports \<open>speaking\<close> exactly when its queue holds an utterance, and it fires the
  callbacks of the utterance at the head of the queue: start leaves the utterance there,
  end and error remove it.
\<close>

record System =
  app :: AppState
  queue :: "Utterance list"

definition start :: System where
  "start = \<lparr>app = initial, queue = []\<rparr>"

text \<open>
  The events of the single-threaded event loop: the \<open>onChange\<close> handlers of the text
  area (line 102), the voice list (156) and the two sliders (177 and 192, carrying the
  number \<open>parseFloat\<close> read), the settings button (90), the loading of the voices, a click
  on Play, a call of \<open>handlePause\<close> or \<open>handleStop\<close>, and the platform firing the start,
  end or error event of the utterance at the head of its queue. Pause and Stop are taken
  as calls of their handlers: their \<open>disabled\<close> attributes can only remove such calls.
\<close>

datatype Event =
  TextChanged string
| VoiceSelected string
| RateChanged number
| PitchChanged number
| SettingsToggled
| VoicesLoaded "Voice list"
| PlayClicked
| PauseCalled
| StopCalled
| PlatformStart
| PlatformEnd
| PlatformError

definition issue :: "System \<Rightarrow> AppState \<times> SpeechCommand list \<Rightarrow> System" where
  "issue sys r = \<lparr>app = fst r, queue = platform_run (snd r) (queue sys)\<rparr>"

fun step :: "Event \<Rightarrow> System \<Rightarrow> System" where
  "step (TextChanged t) sys = sys\<lparr>app := (app sys)\<lparr>text_buffer := t\<rparr>\<rparr>"
| "step (VoiceSelected v) sys = sys\<lparr>app := (app sys)\<lparr>selectedVoice := v\<rparr>\<rparr>"
| "step (RateChanged r) sys = sys\<lparr>app := (app sys)\<lparr>rate := r\<rparr>\<rparr>"
| "step (PitchChanged p) sys = sys\<lparr>app := (app sys)\<lparr>pitch := p\<rparr>\<rparr>"
| "step SettingsToggled sys =
     sys\<lparr>app := (app sys)\<lparr>showSettings := \<not> showSettings (app sys)\<rparr>\<rparr>"
| "step (VoicesLoaded vs) sys = sys\<lparr>app := loadVoices vs (app sys)\<rparr>"
| "step PlayClicked sys = issue sys (clickPlay (queue sys \<noteq> []) (app sys))"
| "step PauseCalled sys = issue sys (handlePause (queue sys \<noteq> []) (app sys))"
| "step StopCalled sys = issue sys (handleStop (app sys))"
| "step PlatformStart sys =
     (case queue sys of
        [] \<Rightarrow> sys
      | u # q \<Rightarrow> sys\<lparr>app := run_callback (onstart u) (app sys)\<rparr>)"
| "step PlatformEnd sys =
     (case queue sys of
        [] \<Rightarrow> sys
      | u # q \<Rightarrow> \<lparr>app = run_callback (onend u) (app sys), queue = q\<rparr>)"
| "step PlatformError sys =
     (case queue sys of
        [] \<Rightarrow> sys
      | u # q \<Rightarrow> \<lparr>app = run_callback (onerror u) (app sys), queue = q\<rparr>)"

definition run :: "Event list \<Rightarrow> System \<Rightarrow> System" where
  "run evs sys = fold step evs sys"

section \<open>Notions of the specification\<close>

text \<open>
  The values chosen on the rate slider in the course of a run, oldest first, and the last
  of them; before the first choice the slider shows the initial state, 1. Likewise for
  the pitch slider.
\<close>

fun rate_choices :: "Event list \<Rightarrow> number list" where
  "rate_choices [] = []"
| "rate_choices (RateChanged v # es) = v # rate_choices es"
| "rate_choices (e # es) = rate_choices es"

fun pitch_choices :: "Event list \<Rightarrow> number list" where
  "pitch_choices [] = []"
| "pitch_choices (PitchChanged v # es) = v # pitch_choices es"
| "pitch_choices (e # es) = pitch_choices es"

definition last_choice :: "number list \<Rightarrow> number" where
  "last_choice vs = (if vs = [] then 1 else last vs)"

text \<open>
  Both sliders are range inputs with \<open>min="0.5"\<close> and \<open>max="2"\<close> (lines 173, 174, 188 and
  189): the numbers they deliver lie between these bounds.
\<close>

fun slider_in_bounds :: "Event \<Rightarrow> bool" where
  "slider_in_bounds (RateChanged v) = (1 / 2 \<le> v \<and> v \<le> 2)"
| "slider_in_bounds (PitchChanged v) = (1 / 2 \<le> v \<and> v \<le> 2)"
| "slider_in_bounds e = True"

definition clamp :: "number \<Rightarrow> number \<Rightarrow> number \<Rightarrow> number" where
  "clamp lo hi x = max lo (min hi x)"

text \<open>
  The voice catalog loader in the words of the specification: the catalog is replaced,
  and the first entry is selected if there is one and no voice is selected (the
  selection is the empty string, its initial value). It is compared with
  \<^const>\<open>loadVoices\<close> in the section on the voice catalog.
\<close>

definition loadVoices_as_specified :: "Voice list \<Rightarrow> AppState \<Rightarrow> AppState" where
  "loadVoices_as_specified availableVoices s =
     (let s1 = s\<lparr>voices := availableVoices\<rparr>
      in if length availableVoices > 0 \<and> selectedVoice s = []
         then s1\<lparr>selectedVoice := voiceURI (availableVoices ! 0)\<rparr>
         else s1)"

section \<open>Concrete inputs\<close>

text \<open>Three voices, an utterance left from an earlier Play, and a few states.\<close>

definition voice_a :: Voice where
  "voice_a = \<lparr>name = ''Alice'', lang = ''en-US'', voiceURI = ''urn:alice''\<rparr>"

definition voice_b :: Voice where
  "voice_b = \<lparr>name = ''Bob'', lang = ''en-GB'', voiceURI = ''urn:bob''\<rparr>"

definition voice_c :: Voice where
  "voice_c = \<lparr>name = ''Chloe'', lang = ''fr-FR'', voiceURI = ''urn:chloe''\<rparr>"

definition earlier_utterance :: Utterance where
  "earlier_utterance =
     (new_utterance ''earlier'')
       \<lparr>onstart := Some (SetIsPlaying True), onend := Some (SetIsPlaying False),
        onerror := Some (SetIsPlaying False)\<rparr>"

text \<open>Text typed, the catalog loaded, the second voice picked by the user.\<close>

definition hello_state :: AppState where
  "hello_state =
     initial\<lparr>text_buffer := ''Hello world'', voices := [voice_a, voice_b, voice_c],
             selectedVoice := ''urn:bob''\<rparr>"

text \<open>The same while the flag says that speech is audible.\<close>

definition playing_state :: AppState where
  "playing_state = hello_state\<lparr>isPlaying := True\<rparr>"

text \<open>A selection that matches no catalog entry.\<close>

definition unmatched_state :: AppState where
  "unmatched_state = hello_state\<lparr>selectedVoice := ''urn:nobody''\<rparr>"

definition slider_session :: "Event list" where
  "slider_session =
     [VoicesLoaded [voice_a, voice_b, voice_c], TextChanged ''Hello world'',
      RateChanged (3 / 2), PitchChanged (7 / 10), SettingsToggled, RateChanged (6 / 5)]"

definition replay_session :: "Event list" where
  "replay_session =
     [TextChanged ''Hello world'', PlayClicked, PlatformStart, PauseCalled, PlayClicked]"

section \<open>Auxiliary facts\<close>

lemma run_callback_keeps:
  "text_buffer (run_callback c s) = text_buffer s"
  "rate (run_callback c s) = rate s"
  "pitch (run_callback c s) = pitch s"
  by (induction c s rule: run_callback.induct) simp_all

lemma platform_run_simps:
  "platform_run [] q = q"
  "platform_run (c # cs) q = platform_run cs (platform_exec c q)"
  by (simp_all add: platform_run_def)

lemma handleSpeak_queue:
  "length (platform_run (snd (handleSpeak (q \<noteq> []) s)) q) \<le> 1"
  by (cases q) (simp_all add: handleSpeak_def Let_def platform_run_simps)

lemma handleSpeak_True_queue:
  "length (platform_run (snd (handleSpeak True s)) q) \<le> 1"
  by (simp add: handleSpeak_def Let_def platform_run_simps)

lemma step_queue:
  assumes "length (queue sys) \<le> 1"
  shows "length (queue (step e sys)) \<le> 1"
proof (cases e)
  case PlayClicked
  then show ?thesis
    using assms handleSpeak_queue [of "queue sys" "app sys"]
    by (simp add: issue_def clickPlay_def platform_run_simps)
next
  case PauseCalled
  then show ?thesis
    using assms by (simp add: issue_def handlePause_def platform_run_simps)
next
  case StopCalled
  then show ?thesis
    by (simp add: issue_def handleStop_def platform_run_simps)
qed (insert assms, auto split: list.splits)

lemma run_queue:
  "length (queue sys) \<le> 1 \<Longrightarrow> length (queue (run evs sys)) \<le> 1"
proof (induction evs arbitrary: sys)
  case Nil
  then show ?case by (simp add: run_def)
next
  case (Cons e evs)
  have "length (queue (run evs (step e sys))) \<le> 1"
    by (rule Cons.IH) (rule step_queue [OF Cons.prems])
  then show ?case by (simp add: run_def)
qed

lemma handleSpeak_request:
  assumes "text_buffer s \<noteq> []"
  shows "\<exists>u. handleSpeak speaking s =
           (s\<lparr>utteranceRef := Some u\<rparr>, (if speaking then [Cancel] else []) @ [Speak u])
         \<and> utext u = text_buffer s \<and> urate u = rate s \<and> upitch u = pitch s
         \<and> voice u = List.find (\<lambda>v. voiceURI v = selectedVoice s) (voices s)
         \<and> onstart u = Some (SetIsPlaying True)
         \<and> onend u = Some (SetIsPlaying False)
         \<and> onerror u = Some (SetIsPlaying False)"
  using assms by (simp add: handleSpeak_def Let_def new_utterance_def)

lemma find_unique:
  assumes "distinct (map f xs)" and "x \<in> set xs" and "f x = k"
  shows "List.find (\<lambda>y. f y = k) xs = Some x"
proof -
  have "List.find (\<lambda>y. f y = k) xs \<noteq> None"
    using assms(2,3) by (auto simp add: find_None_iff)
  then obtain y where y: "List.find (\<lambda>y. f y = k) xs = Some y"
    by blast
  then have "y \<in> set xs" and "f y = k"
    by (auto simp add: find_Some_iff)
  moreover have "inj_on f (set xs)"
    using assms(1) by (simp add: distinct_map)
  ultimately have "y = x"
    using assms(2,3) by (auto dest: inj_onD)
  with y show ?thesis by simp
qed

lemma step_rate:
  "rate (app (step e sys)) = (case e of RateChanged v \<Rightarrow> v | _ \<Rightarrow> rate (app sys))"
  by (cases e)
    (simp_all add: issue_def clickPlay_def handleSpeak_def handlePause_def handleStop_def
      loadVoices_def Let_def run_callback_keeps split: list.splits)

lemma step_pitch:
  "pitch (app (step e sys)) = (case e of PitchChanged v \<Rightarrow> v | _ \<Rightarrow> pitch (app sys))"
  by (cases e)
    (simp_all add: issue_def clickPlay_def handleSpeak_def handlePause_def handleStop_def
      loadVoices_def Let_def run_callback_keeps split: list.splits)

lemma run_rate:
  "rate (app (run evs sys)) =
     (if rate_choices evs = [] then rate (app sys) else last (rate_choices evs))"
proof (induction evs arbitrary: sys)
  case Nil
  show ?case by (simp add: run_def)
next
  case (Cons e evs)
  have "rate (app (run (e # evs) sys)) = rate (app (run evs (step e sys)))"
    by (simp add: run_def)
  also have "\<dots> = (if rate_choices evs = [] then rate (app (step e sys))
                    else last (rate_choices evs))"
    by (rule Cons.IH)
  finally have "rate (app (run (e # evs) sys)) =
      (if rate_choices evs = []
       then (case e of RateChanged v \<Rightarrow> v | _ \<Rightarrow> rate (app sys))
       else last (rate_choices evs))"
    by (simp only: step_rate)
  then show ?case
    by (cases e) simp_all
qed

lemma run_pitch:
  "pitch (app (run evs sys)) =
     (if pitch_choices evs = [] then pitch (app sys) else last (pitch_choices evs))"
proof (induction evs arbitrary: sys)
  case Nil
  show ?case by (simp add: run_def)
next
  case (Cons e evs)
  have "pitch (app (run (e # evs) sys)) = pitch (app (run evs (step e sys)))"
    by (simp add: run_def)
  also have "\<dots> = (if pitch_choices evs = [] then pitch (app (step e sys))
                    else last (pitch_choices evs))"
    by (rule Cons.IH)
  finally have "pitch (app (run (e # evs) sys)) =
      (if pitch_choices evs = []
       then (case e of PitchChanged v \<Rightarrow> v | _ \<Rightarrow> pitch (app sys))
       else last (pitch_choices evs))"
    by (simp only: step_pitch)
  then show ?case
    by (cases e) simp_all
qed

lemma rate_choices_bounds:
  "list_all slider_in_bounds evs \<Longrightarrow> v \<in> set (rate_choices evs) \<Longrightarrow> 1 / 2 \<le> v \<and> v \<le> 2"
  by (induction evs rule: rate_choices.induct) auto

lemma pitch_choices_bounds:
  "list_all slider_in_bounds evs \<Longrightarrow> v \<in> set (pitch_choices evs) \<Longrightarrow> 1 / 2 \<le> v \<and> v \<le> 2"
  by (induction evs rule: pitch_choices.induct) auto

lemma last_choice_bounds:
  assumes "\<And>v. v \<in> set vs \<Longrightarrow> 1 / 2 \<le> v \<and> v \<le> 2"
  shows "1 / 2 \<le> last_choice vs \<and> last_choice vs \<le> 2"
proof (cases "vs = []")
  case True
  then show ?thesis by (simp add: last_choice_def)
next
  case False
  then have "last vs \<in> set vs" by simp
  from assms [OF this] False show ?thesis by (simp add: last_choice_def)
qed

lemma clamp_inside: "lo \<le> x \<Longrightarrow> x \<le> hi \<Longrightarrow> clamp lo hi x = x"
  by (simp add: clamp_def)

section \<open>Play\<close>

text \<open>
  C1. When the platform reports an utterance in progress (\<open>speaking\<close> is true),
  \<open>handleSpeak\<close> issues \<open>cancel\<close> first and submits the new utterance after it: the calls
  are \<open>cancel, speak u\<close> when there is text and \<open>cancel\<close> alone when there is none. Whatever
  the platform's queue held before, it holds at most one utterance afterwards, the new
  one. In the closed system, where the platform reports \<open>speaking\<close> exactly when its queue
  holds an utterance, no run of events from the initial state ever leaves two utterances
  in the queue.
\<close>

theorem handleSpeak_cancels_first:
  "(text_buffer s \<noteq> [] \<longrightarrow>
      (\<exists>u. handleSpeak True s = (s\<lparr>utteranceRef := Some u\<rparr>, [Cancel, Speak u])
           \<and> platform_run [Cancel, Speak u] q = [u]))
   \<and> (text_buffer s = [] \<longrightarrow> handleSpeak True s = (s, [Cancel]))
   \<and> length (platform_run (snd (handleSpeak True s)) q) \<le> 1
   \<and> length (queue (run evs start)) \<le> 1"
proof -
  have "length (queue (run evs start)) \<le> 1"
    by (rule run_queue) (simp add: start_def)
  moreover have "length (platform_run (snd (handleSpeak True s)) q) \<le> 1"
    by (rule handleSpeak_True_queue)
  ultimately show ?thesis
    by (simp add: handleSpeak_def Let_def platform_run_simps)
qed

theorem handleSpeak_cancels_first_witness:
  "text_buffer hello_state \<noteq> []
   \<and> (\<exists>u. handleSpeak True hello_state =
            (hello_state\<lparr>utteranceRef := Some u\<rparr>, [Cancel, Speak u])
         \<and> platform_run [Cancel, Speak u] [earlier_utterance] = [u])
   \<and> text_buffer initial = []
   \<and> handleSpeak True initial = (initial, [Cancel])
   \<and> length (queue (run replay_session start)) \<le> 1"
proof -
  have h: "text_buffer hello_state \<noteq> []"
    by (simp add: hello_state_def)
  have i: "text_buffer initial = []"
    by (simp add: initial_def)
  from handleSpeak_cancels_first [of hello_state "[earlier_utterance]" replay_session] h
  have a: "\<exists>u. handleSpeak True hello_state =
            (hello_state\<lparr>utteranceRef := Some u\<rparr>, [Cancel, Speak u])
         \<and> platform_run [Cancel, Speak u] [earlier_utterance] = [u]"
    and c: "length (queue (run replay_session start)) \<le> 1"
    by blast+
  from handleSpeak_cancels_first [of initial "[]" "[]"] i
  have b: "handleSpeak True initial = (initial, [Cancel])"
    by blast
  from h a i b c show ?thesis by blast
qed

text \<open>
  C2. The utterance that \<open>handleSpeak\<close> submits carries three callbacks: the start
  callback sets the playback flag and nothing else, the end callback clears it and
  nothing else, and the error callback is the same closure as the end callback, so it
  makes the same change and there is no message for it to set. When the platform fires
  them for the utterance at the head of its queue the flag follows. \<open>handleSpeak\<close> itself
  leaves the flag as it was: submitting does not set it.
\<close>

theorem callbacks_drive_flag:
  assumes "text_buffer s \<noteq> []"
  shows "\<exists>u. handleSpeak speaking s =
           (s\<lparr>utteranceRef := Some u\<rparr>, (if speaking then [Cancel] else []) @ [Speak u])
         \<and> (\<forall>t. run_callback (onstart u) t = t\<lparr>isPlaying := True\<rparr>)
         \<and> (\<forall>t. run_callback (onend u) t = t\<lparr>isPlaying := False\<rparr>)
         \<and> (\<forall>t. run_callback (onerror u) t = t\<lparr>isPlaying := False\<rparr>)
         \<and> (\<forall>t. run_callback (onerror u) t = run_callback (onend u) t)
         \<and> (\<forall>t q. step PlatformStart \<lparr>app = t, queue = u # q\<rparr>
                    = \<lparr>app = t\<lparr>isPlaying := True\<rparr>, queue = u # q\<rparr>)
         \<and> (\<forall>t q. step PlatformEnd \<lparr>app = t, queue = u # q\<rparr>
                    = \<lparr>app = t\<lparr>isPlaying := False\<rparr>, queue = q\<rparr>)
         \<and> (\<forall>t q. step PlatformError \<lparr>app = t, queue = u # q\<rparr>
                    = step PlatformEnd \<lparr>app = t, queue = u # q\<rparr>)
         \<and> isPlaying (fst (handleSpeak speaking s)) = isPlaying s"
proof -
  from handleSpeak_request [OF assms, of speaking] obtain u where
    u: "handleSpeak speaking s =
          (s\<lparr>utteranceRef := Some u\<rparr>, (if speaking then [Cancel] else []) @ [Speak u])"
      "onstart u = Some (SetIsPlaying True)"
      "onend u = Some (SetIsPlaying False)"
      "onerror u = Some (SetIsPlaying False)"
    by blast
  have "isPlaying (fst (handleSpeak speaking s)) = isPlaying s"
    by (simp add: u(1))
  with u show ?thesis
    by (intro exI [of _ u]) simp
qed

theorem callbacks_drive_flag_witness:
  "text_buffer hello_state \<noteq> []
   \<and> (\<exists>u. handleSpeak False hello_state = (hello_state\<lparr>utteranceRef := Some u\<rparr>, [Speak u])
         \<and> run_callback (onstart u) hello_state = playing_state
         \<and> run_callback (onend u) playing_state = hello_state
         \<and> run_callback (onerror u) playing_state = hello_state)
   \<and> \<not> isPlaying (fst (handleSpeak False hello_state))"
proof -
  have h: "text_buffer hello_state \<noteq> []"
    by (simp add: hello_state_def)
  have n: "\<not> isPlaying hello_state"
    by (simp add: hello_state_def initial_def)
  have e: "hello_state\<lparr>isPlaying := True\<rparr> = playing_state"
    "playing_state\<lparr>isPlaying := False\<rparr> = hello_state"
    by (simp_all add: playing_state_def hello_state_def initial_def)
  from callbacks_drive_flag [OF h, of False] obtain u where
    u: "handleSpeak False hello_state = (hello_state\<lparr>utteranceRef := Some u\<rparr>, [Speak u])"
      "\<forall>t. run_callback (onstart u) t = t\<lparr>isPlaying := True\<rparr>"
      "\<forall>t. run_callback (onend u) t = t\<lparr>isPlaying := False\<rparr>"
      "\<forall>t. run_callback (onerror u) t = t\<lparr>isPlaying := False\<rparr>"
      "isPlaying (fst (handleSpeak False hello_state)) = isPlaying hello_state"
    by auto
  from u(2-4) e have
    "run_callback (onstart u) hello_state = playing_state"
    "run_callback (onend u) playing_state = hello_state"
    "run_callback (onerror u) playing_state = hello_state"
    by simp_all
  with u(1) have "\<exists>u. handleSpeak False hello_state =
        (hello_state\<lparr>utteranceRef := Some u\<rparr>, [Speak u])
      \<and> run_callback (onstart u) hello_state = playing_state
      \<and> run_callback (onend u) playing_state = hello_state
      \<and> run_callback (onerror u) playing_state = hello_state"
    by blast
  with h n u(5) show ?thesis by simp
qed

text \<open>
  C5. With an empty text buffer the Play button is disabled and a click on it changes
  nothing and issues no call. \<open>handleSpeak\<close> itself, were it called, builds no utterance,
  submits none and returns the state it was given; its only call is the \<open>cancel\<close> of line
  38 when the platform reports \<open>speaking\<close>.
\<close>

theorem play_without_text_is_noop:
  assumes "text_buffer s = []"
  shows "playDisabled s
    \<and> clickPlay speaking s = (s, [])
    \<and> fst (handleSpeak speaking s) = s
    \<and> snd (handleSpeak speaking s) = (if speaking then [Cancel] else [])
    \<and> (\<forall>u. Speak u \<notin> set (snd (handleSpeak speaking s)))"
  using assms by (simp add: playDisabled_def clickPlay_def handleSpeak_def)

theorem play_without_text_is_noop_witness:
  "text_buffer initial = []
   \<and> playDisabled initial
   \<and> clickPlay True initial = (initial, [])
   \<and> fst (handleSpeak True initial) = initial
   \<and> snd (handleSpeak True initial) = [Cancel]
   \<and> (\<forall>u. Speak u \<notin> set (snd (handleSpeak True initial)))"
proof -
  have h: "text_buffer initial = []" by (simp add: initial_def)
  show ?thesis using h play_without_text_is_noop [OF h, of True] by simp
qed

text \<open>
  C7. In any run of events from the initial state in which the sliders deliver numbers
  within their bounds, the request built by \<open>handleSpeak\<close> carries the rate and the pitch
  held in the state, which are the last values chosen on the sliders (1 before the first
  choice); they lie in [0.5, 2.0], so clamping to that interval changes nothing.
\<close>

theorem request_carries_slider_values:
  assumes "list_all slider_in_bounds evs"
    and "s = app (run evs start)"
    and "text_buffer s \<noteq> []"
  shows "\<exists>u. handleSpeak speaking s =
           (s\<lparr>utteranceRef := Some u\<rparr>, (if speaking then [Cancel] else []) @ [Speak u])
         \<and> urate u = rate s \<and> upitch u = pitch s
         \<and> urate u = last_choice (rate_choices evs)
         \<and> upitch u = last_choice (pitch_choices evs)
         \<and> urate u = clamp (1 / 2) 2 (last_choice (rate_choices evs))
         \<and> upitch u = clamp (1 / 2) 2 (last_choice (pitch_choices evs))
         \<and> 1 / 2 \<le> urate u \<and> urate u \<le> 2 \<and> 1 / 2 \<le> upitch u \<and> upitch u \<le> 2"
proof -
  have r: "rate s = last_choice (rate_choices evs)"
    by (simp add: assms(2) run_rate last_choice_def start_def initial_def)
  have p: "pitch s = last_choice (pitch_choices evs)"
    by (simp add: assms(2) run_pitch last_choice_def start_def initial_def)
  have rb: "1 / 2 \<le> last_choice (rate_choices evs) \<and> last_choice (rate_choices evs) \<le> 2"
    by (rule last_choice_bounds) (rule rate_choices_bounds [OF assms(1)])
  have pb: "1 / 2 \<le> last_choice (pitch_choices evs) \<and> last_choice (pitch_choices evs) \<le> 2"
    by (rule last_choice_bounds) (rule pitch_choices_bounds [OF assms(1)])
  from handleSpeak_request [OF assms(3), of speaking] obtain u where
    u: "handleSpeak speaking s =
          (s\<lparr>utteranceRef := Some u\<rparr>, (if speaking then [Cancel] else []) @ [Speak u])"
      "urate u = rate s" "upitch u = pitch s"
    by blast
  have "urate u = clamp (1 / 2) 2 (last_choice (rate_choices evs))"
    using rb by (simp add: u(2) r clamp_inside)
  moreover have "upitch u = clamp (1 / 2) 2 (last_choice (pitch_choices evs))"
    using pb by (simp add: u(3) p clamp_inside)
  ultimately show ?thesis
    using u r p rb pb by (intro exI [of _ u]) simp
qed

theorem request_carries_slider_values_witness:
  "list_all slider_in_bounds slider_session
   \<and> text_buffer (app (run slider_session start)) \<noteq> []
   \<and> last_choice (rate_choices slider_session) = 6 / 5
   \<and> last_choice (pitch_choices slider_session) = 7 / 10
   \<and> (\<exists>u. snd (handleSpeak False (app (run slider_session start))) = [Speak u]
         \<and> urate u = 6 / 5 \<and> upitch u = 7 / 10)"
proof -
  have b: "list_all slider_in_bounds slider_session"
    by (simp add: slider_session_def)
  have t: "text_buffer (app (run slider_session start)) = ''Hello world''"
    by (simp add: slider_session_def run_def start_def initial_def loadVoices_def)
  have t': "text_buffer (app (run slider_session start)) \<noteq> []"
    by (simp add: t)
  have lr: "last_choice (rate_choices slider_session) = 6 / 5"
    by (simp add: slider_session_def last_choice_def)
  have lp: "last_choice (pitch_choices slider_session) = 7 / 10"
    by (simp add: slider_session_def last_choice_def)
  from request_carries_slider_values [OF b refl t', of False]
  obtain u where "handleSpeak False (app (run slider_session start)) =
      ((app (run slider_session start))\<lparr>utteranceRef := Some u\<rparr>, [Speak u])"
    "urate u = last_choice (rate_choices slider_session)"
    "upitch u = last_choice (pitch_choices slider_session)"
    by auto
  then have "snd (handleSpeak False (app (run slider_session start))) = [Speak u]
      \<and> urate u = 6 / 5 \<and> upitch u = 7 / 10"
    by (simp add: lr lp)
  then show ?thesis using b t' lr lp by blast
qed

text \<open>
  C8. The voice of the request is what \<open>find\<close> returns on the catalog for the test
  \<open>voiceURI = selectedVoice\<close>: none exactly when no entry has the selected identifier,
  otherwise an entry of the catalog with that identifier, and the entry with that
  identifier when the identifiers of the catalog are distinct.
\<close>

theorem request_voice_resolved:
  assumes "text_buffer s \<noteq> []"
  shows "\<exists>u. handleSpeak speaking s =
           (s\<lparr>utteranceRef := Some u\<rparr>, (if speaking then [Cancel] else []) @ [Speak u])
         \<and> voice u = List.find (\<lambda>v. voiceURI v = selectedVoice s) (voices s)
         \<and> (voice u = None) = (\<forall>v \<in> set (voices s). voiceURI v \<noteq> selectedVoice s)
         \<and> (\<forall>v. voice u = Some v \<longrightarrow> v \<in> set (voices s) \<and> voiceURI v = selectedVoice s)
         \<and> (\<forall>v. distinct (map voiceURI (voices s)) \<and> v \<in> set (voices s)
                \<and> voiceURI v = selectedVoice s \<longrightarrow> voice u = Some v)"
proof -
  from handleSpeak_request [OF assms, of speaking] obtain u where
    u: "handleSpeak speaking s =
          (s\<lparr>utteranceRef := Some u\<rparr>, (if speaking then [Cancel] else []) @ [Speak u])"
      "voice u = List.find (\<lambda>v. voiceURI v = selectedVoice s) (voices s)"
    by blast
  have n: "(voice u = None) = (\<forall>v \<in> set (voices s). voiceURI v \<noteq> selectedVoice s)"
    by (auto simp add: u(2) find_None_iff)
  have m: "\<forall>v. voice u = Some v \<longrightarrow> v \<in> set (voices s) \<and> voiceURI v = selectedVoice s"
    by (auto simp add: u(2) find_Some_iff)
  have d: "\<forall>v. distinct (map voiceURI (voices s)) \<and> v \<in> set (voices s)
                \<and> voiceURI v = selectedVoice s \<longrightarrow> voice u = Some v"
    by (auto simp add: u(2) intro: find_unique)
  show ?thesis
    by (intro exI [of _ u] conjI) (rule u n m d)+
qed

theorem request_voice_resolved_witness:
  "text_buffer hello_state \<noteq> []
   \<and> (\<exists>u. snd (handleSpeak False hello_state) = [Speak u] \<and> voice u = Some voice_b)
   \<and> text_buffer unmatched_state \<noteq> []
   \<and> (\<exists>u. snd (handleSpeak False unmatched_state) = [Speak u] \<and> voice u = None)"
proof -
  have h: "text_buffer hello_state \<noteq> []"
    by (simp add: hello_state_def)
  have k: "text_buffer unmatched_state \<noteq> []"
    by (simp add: unmatched_state_def hello_state_def)
  have f1: "List.find (\<lambda>v. voiceURI v = selectedVoice hello_state) (voices hello_state)
      = Some voice_b"
    by (simp add: hello_state_def voice_a_def voice_b_def)
  have f2: "List.find (\<lambda>v. voiceURI v = selectedVoice unmatched_state)
      (voices unmatched_state) = None"
    by (simp add: unmatched_state_def hello_state_def voice_a_def voice_b_def voice_c_def)
  from request_voice_resolved [OF h, of False] obtain u where
    "handleSpeak False hello_state = (hello_state\<lparr>utteranceRef := Some u\<rparr>, [Speak u])"
    "voice u = List.find (\<lambda>v. voiceURI v = selectedVoice hello_state) (voices hello_state)"
    by auto
  then have a: "\<exists>u. snd (handleSpeak False hello_state) = [Speak u] \<and> voice u = Some voice_b"
    by (auto simp add: f1)
  from request_voice_resolved [OF k, of False] obtain w where
    "handleSpeak False unmatched_state =
       (unmatched_state\<lparr>utteranceRef := Some w\<rparr>, [Speak w])"
    "voice w = List.find (\<lambda>v. voiceURI v = selectedVoice unmatched_state)
       (voices unmatched_state)"
    by auto
  then have b: "\<exists>u. snd (handleSpeak False unmatched_state) = [Speak u] \<and> voice u = None"
    by (auto simp add: f2)
  from h k a b show ?thesis by blast
qed

text \<open>
  C10. While the playback flag is true the Play button is disabled and a click on it
  does nothing; the button is enabled exactly when the flag is false and the text buffer
  is not empty, and then a click calls \<open>handleSpeak\<close>.
\<close>

theorem play_disabled_while_playing:
  "(isPlaying s \<longrightarrow> playDisabled s \<and> clickPlay speaking s = (s, []))
   \<and> (\<not> playDisabled s) = (\<not> isPlaying s \<and> text_buffer s \<noteq> [])
   \<and> (\<not> isPlaying s \<and> text_buffer s \<noteq> [] \<longrightarrow> clickPlay speaking s = handleSpeak speaking s)"
  by (auto simp add: playDisabled_def clickPlay_def)

theorem play_disabled_while_playing_witness:
  "isPlaying playing_state
   \<and> playDisabled playing_state
   \<and> clickPlay True playing_state = (playing_state, [])
   \<and> \<not> isPlaying hello_state \<and> text_buffer hello_state \<noteq> []
   \<and> \<not> playDisabled hello_state
   \<and> clickPlay True hello_state = handleSpeak True hello_state"
  using play_disabled_while_playing [of playing_state True]
    play_disabled_while_playing [of hello_state True]
  by (simp add: playing_state_def hello_state_def initial_def)

section \<open>Stop\<close>

text \<open>
  C3. Whatever the state before (flag true or false, any other field), \<open>handleStop\<close>
  issues exactly one platform call, \<open>cancel\<close>, and leaves the playback flag false; every
  other field of the state is kept, and the platform's queue is empty afterwards. A click
  on the enabled Stop button is such a call.
\<close>

theorem handleStop_forces_idle:
  "handleStop s = (s\<lparr>isPlaying := False\<rparr>, [Cancel])
   \<and> isPlaying (fst (handleStop s)) = False
   \<and> snd (handleStop s) = [Cancel]
   \<and> platform_run (snd (handleStop s)) q = []
   \<and> step StopCalled \<lparr>app = s, queue = q\<rparr> = \<lparr>app = s\<lparr>isPlaying := False\<rparr>, queue = []\<rparr>
   \<and> clickStop True s = handleStop s"
  by (simp add: handleStop_def issue_def platform_run_simps clickStop_def stopDisabled_def)

theorem handleStop_forces_idle_witness:
  "handleStop playing_state = (hello_state, [Cancel])
   \<and> platform_run (snd (handleStop playing_state)) [earlier_utterance] = []
   \<and> handleStop hello_state = (hello_state, [Cancel])
   \<and> handleStop initial = (initial, [Cancel])"
proof -
  have e: "playing_state\<lparr>isPlaying := False\<rparr> = hello_state"
    "hello_state\<lparr>isPlaying := False\<rparr> = hello_state"
    "initial\<lparr>isPlaying := False\<rparr> = initial"
    by (simp_all add: playing_state_def hello_state_def initial_def)
  show ?thesis
    using handleStop_forces_idle [of playing_state "[earlier_utterance]"]
      handleStop_forces_idle [of hello_state "[]"]
      handleStop_forces_idle [of initial "[]"]
    by (simp add: e platform_run_def clickStop_def stopDisabled_def)
qed

section \<open>Pause and resume\<close>

text \<open>
  C4, as stated, asks every click of the toggle, that is every call of \<open>handlePause\<close>,
  to flip the flag and to issue one command. The guard of line 56 makes the handler do
  nothing when the platform does not report \<open>speaking\<close>: here the button was rendered
  enabled, the platform has stopped speaking since, and the click keeps the flag and
  issues no command.
\<close>

theorem handlePause_guard_counterexample:
  "handlePause False hello_state = (hello_state, [])
   \<and> clickPause True False hello_state = (hello_state, [])
   \<and> \<not> (isPlaying (fst (handlePause False hello_state)) \<noteq> isPlaying hello_state
        \<and> length (snd (handlePause False hello_state)) = 1)"
  by (simp add: handlePause_def clickPause_def pauseDisabled_def)

text \<open>
  C4, amended. While the platform reports \<open>speaking\<close>, a call of \<open>handlePause\<close> flips the
  playback flag once and issues exactly one command, chosen by the flag's value before
  the call: \<open>pause\<close> when it was true, \<open>resume\<close> when it was false; a click on the
  enabled button is such a call. When the platform does not report \<open>speaking\<close> the call
  changes nothing and issues no command, and neither does a click on the disabled button.
\<close>

theorem handlePause_toggles_while_speaking:
  "handlePause True s =
     (s\<lparr>isPlaying := \<not> isPlaying s\<rparr>, [if isPlaying s then Pause else Resume])
   \<and> isPlaying (fst (handlePause True s)) = (\<not> isPlaying s)
   \<and> length (snd (handlePause True s)) = 1
   \<and> (isPlaying s \<longrightarrow> snd (handlePause True s) = [Pause])
   \<and> (\<not> isPlaying s \<longrightarrow> snd (handlePause True s) = [Resume])
   \<and> clickPause True True s = handlePause True s
   \<and> handlePause False s = (s, [])
   \<and> clickPause rendered False s = (s, [])
   \<and> clickPause False speaking s = (s, [])"
  by (simp add: handlePause_def clickPause_def pauseDisabled_def)

theorem handlePause_toggles_while_speaking_witness:
  "isPlaying playing_state
   \<and> handlePause True playing_state = (playing_state\<lparr>isPlaying := False\<rparr>, [Pause])
   \<and> \<not> isPlaying hello_state
   \<and> handlePause True hello_state = (hello_state\<lparr>isPlaying := True\<rparr>, [Resume])
   \<and> clickPause True True playing_state = (playing_state\<lparr>isPlaying := False\<rparr>, [Pause])"
  using handlePause_toggles_while_speaking [of playing_state True True]
    handlePause_toggles_while_speaking [of hello_state True True]
  by (simp add: playing_state_def hello_state_def initial_def)

section \<open>Voice catalog\<close>

text \<open>
  C6, as stated, selects the first entry only if no voice is selected. \<open>loadVoices\<close> has
  no such test: with the second voice selected, a reload of the same three voices moves
  the selection to the first.
\<close>

theorem loadVoices_overrides_selection_counterexample:
  "selectedVoice hello_state = ''urn:bob''
   \<and> selectedVoice (loadVoices [voice_a, voice_b, voice_c] hello_state) = ''urn:alice''
   \<and> selectedVoice (loadVoices_as_specified [voice_a, voice_b, voice_c] hello_state) = ''urn:bob''
   \<and> loadVoices [voice_a, voice_b, voice_c] hello_state
       \<noteq> loadVoices_as_specified [voice_a, voice_b, voice_c] hello_state"
  by (simp add: loadVoices_def loadVoices_as_specified_def hello_state_def initial_def
      voice_a_def)

text \<open>
  C6, amended. \<open>loadVoices\<close> stores exactly the voices the platform returned and, when
  that list is not empty, selects its first entry whether or not a voice was selected
  before; when the list is empty the selection is left as it was. No other field
  changes. On a state with no selection this is what the specification describes.
\<close>

theorem loadVoices_selects_first:
  "loadVoices vs s =
     s\<lparr>voices := vs,
       selectedVoice := (case vs of [] \<Rightarrow> selectedVoice s | v # _ \<Rightarrow> voiceURI v)\<rparr>
   \<and> voices (loadVoices vs s) = vs
   \<and> (vs \<noteq> [] \<longrightarrow> selectedVoice (loadVoices vs s) = voiceURI (hd vs))
   \<and> (vs = [] \<longrightarrow> selectedVoice (loadVoices vs s) = selectedVoice s)
   \<and> (selectedVoice s = [] \<longrightarrow> loadVoices vs s = loadVoices_as_specified vs s)"
  by (cases vs) (simp_all add: loadVoices_def loadVoices_as_specified_def)

theorem loadVoices_selects_first_witness:
  "voices (loadVoices [voice_a, voice_b, voice_c] initial) = [voice_a, voice_b, voice_c]
   \<and> selectedVoice (loadVoices [voice_a, voice_b, voice_c] initial) = ''urn:alice''
   \<and> selectedVoice (loadVoices [voice_a, voice_b, voice_c] hello_state) = ''urn:alice''
   \<and> selectedVoice (loadVoices [] hello_state) = ''urn:bob''
   \<and> selectedVoice initial = []
   \<and> loadVoices [] initial = initial
   \<and> loadVoices [voice_a, voice_b, voice_c] initial
       = loadVoices_as_specified [voice_a, voice_b, voice_c] initial"
  using loadVoices_selects_first [of "[voice_a, voice_b, voice_c]" initial]
    loadVoices_selects_first [of "[voice_a, voice_b, voice_c]" hello_state]
    loadVoices_selects_first [of "[]" hello_state]
    loadVoices_selects_first [of "[]" initial]
  by (simp add: hello_state_def initial_def voice_a_def loadVoices_def
      loadVoices_as_specified_def)

section \<open>Text export\<close>

text \<open>
  C9. \<open>handleDownload\<close> wraps the text buffer in a plain-text blob, points an anchor
  with the download name \<open>speech-text.txt\<close> at it and clicks the anchor. With a non-empty
  text buffer the Download button is enabled and a click on it saves exactly one file,
  of that name, whose contents are the text buffer; with an empty text buffer the button
  is disabled and a click produces no file.
\<close>

theorem download_exports_text:
  "handleDownload url s =
     [CreateObjectURL \<lparr>blobParts = [text_buffer s], blobType = ''text/plain''\<rparr> url,
      AnchorClick \<lparr>href = url, download = ''speech-text.txt''\<rparr>,
      RevokeObjectURL url]
   \<and> (text_buffer s \<noteq> [] \<longrightarrow>
        \<not> downloadDisabled s
        \<and> clickDownload url s = handleDownload url s
        \<and> saved_files store (clickDownload url s) =
            [\<lparr>fileName = ''speech-text.txt'', fileType = ''text/plain'',
              fileData = text_buffer s\<rparr>])
   \<and> (text_buffer s = [] \<longrightarrow>
        downloadDisabled s
        \<and> clickDownload url s = []
        \<and> saved_files store (clickDownload url s) = [])"
  by (simp add: handleDownload_def clickDownload_def downloadDisabled_def)

theorem download_exports_text_witness:
  "text_buffer hello_state \<noteq> []
   \<and> \<not> downloadDisabled hello_state
   \<and> saved_files Map.empty (clickDownload ''blob:1'' hello_state) =
       [\<lparr>fileName = ''speech-text.txt'', fileType = ''text/plain'',
         fileData = ''Hello world''\<rparr>]
   \<and> text_buffer initial = []
   \<and> downloadDisabled initial
   \<and> clickDownload ''blob:1'' initial = []
   \<and> saved_files Map.empty (clickDownload ''blob:1'' initial) = []"
  using download_exports_text [of "''blob:1''" hello_state Map.empty]
    download_exports_text [of "''blob:1''" initial Map.empty]
  by (simp add: hello_state_def initial_def)

end
